theory Spec2Isabelle
  imports Main "HOL-Library.AList" "HOL-Library.Sublist"
begin

section \<open>The environment of \<^verbatim>\<open>xcode_cleanup.py\<close>\<close>

text \<open>
  The tool works on the file system and on external programs. Both are made explicit:
  the file system is a tree that every operation receives and returns, and the external
  programs (\<^verbatim>\<open>du\<close>, the maintenance command) and \<^verbatim>\<open>os.path.expanduser\<close>
  are parameters collected in the record \<open>env\<close>.

  Scope of the file-system model: directories and regular files only (no symbolic links),
  a single user, no concurrent writer, and no interrupt (\<^verbatim>\<open>KeyboardInterrupt\<close> is
  not an \<^verbatim>\<open>Exception\<close> and is not caught by the functions modelled here).
\<close>

subsection \<open>Exceptions\<close>

text \<open>
  The source catches \<^verbatim>\<open>Exception\<close> and only ever uses \<^verbatim>\<open>str(e)\<close>. An
  exception is its class together with that description.
\<close>

datatype exn_class =
  FileNotFoundError | NotADirectoryError | IsADirectoryError | PermissionError
  | OSError | TimeoutExpired | UnicodeDecodeError | OtherException

datatype exn = Exn exn_class string

fun str :: "exn \<Rightarrow> string" where
  "str (Exn k m) = m"

subsection \<open>The file system\<close>

type_synonym name = string

text \<open>
  Every entry carries an optional fault: the exception that the operating system raises
  when the entry itself is removed (\<^verbatim>\<open>unlink\<close> of a file, \<^verbatim>\<open>rmdir\<close> of an emptied
  directory): permission denied, file in use, and so on. \<open>None\<close> means the entry can be
  removed. The children of a directory are kept in listing order.
\<close>

datatype node = File "exn option" | Dir "exn option" "(name \<times> node) list"

definition valid_name :: "name \<Rightarrow> bool" where
  "valid_name n \<longleftrightarrow> n \<noteq> [] \<and> CHR ''/'' \<notin> set n \<and> n \<noteq> ''.'' \<and> n \<noteq> ''..''"

text \<open>A well-formed tree: names are valid and distinct within each directory.\<close>

fun wf_node :: "node \<Rightarrow> bool"
and wf_entries :: "(name \<times> node) list \<Rightarrow> bool" where
  "wf_node (File f) = True"
| "wf_node (Dir f cs) = (distinct (map fst cs) \<and> wf_entries cs)"
| "wf_entries [] = True"
| "wf_entries ((n, c) # cs) = (valid_name n \<and> wf_node c \<and> wf_entries cs)"

text \<open>A location is the list of names from the root down to an entry.\<close>

primrec lookup :: "name list \<Rightarrow> node \<Rightarrow> node option" where
  "lookup [] t = Some t"
| "lookup (n # ns) t =
     (case t of
        File f \<Rightarrow> None
      | Dir f cs \<Rightarrow> (case map_of cs n of None \<Rightarrow> None | Some c \<Rightarrow> lookup ns c))"

text \<open>
  \<open>put loc r t\<close> replaces the entry at \<open>loc\<close> by \<open>r\<close>, or unlinks it when \<open>r\<close> is
  \<open>None\<close>; a location that does not exist leaves the tree as it is, and the root is
  never unlinked.
\<close>

primrec put :: "name list \<Rightarrow> node option \<Rightarrow> node \<Rightarrow> node" where
  "put [] r t = (case r of None \<Rightarrow> t | Some t' \<Rightarrow> t')"
| "put (n # ns) r t =
     (case t of
        File f \<Rightarrow> File f
      | Dir f cs \<Rightarrow>
          (case map_of cs n of
             None \<Rightarrow> Dir f cs
           | Some c \<Rightarrow>
               if ns = [] \<and> r = None then Dir f (AList.delete n cs)
               else Dir f (AList.update n (put ns r c) cs)))"

text \<open>What \<^verbatim>\<open>os.stat\<close> and \<^verbatim>\<open>os.listdir\<close> can see of one entry, without its subtree.\<close>

datatype entry_kind = IsFile | IsDir

fun shallow :: "node \<Rightarrow> entry_kind \<times> exn option \<times> name list" where
  "shallow (File f) = (IsFile, f, [])"
| "shallow (Dir f cs) = (IsDir, f, map fst cs)"

definition stat :: "node \<Rightarrow> name list \<Rightarrow> (entry_kind \<times> exn option \<times> name list) option" where
  "stat fs loc = map_option shallow (lookup loc fs)"

subsection \<open>Path strings\<close>

text \<open>\<^verbatim>\<open>s.split(sep)\<close> for a one-character separator: never the empty list.\<close>

fun split_on :: "char \<Rightarrow> string \<Rightarrow> string list" where
  "split_on sep [] = [[]]"
| "split_on sep (c # cs) =
     (if c = sep then [] # split_on sep cs
      else (case split_on sep cs of
              [] \<Rightarrow> [[c]]
            | w # ws \<Rightarrow> (c # w) # ws))"

definition components :: "string \<Rightarrow> name list" where
  "components p = filter (\<lambda>s. s \<noteq> [] \<and> s \<noteq> ''.'') (split_on (CHR ''/'') p)"

text \<open>\<^verbatim>\<open>os.path.join(a, b)\<close> of \<^verbatim>\<open>posixpath\<close>, for two arguments.\<close>

definition path_join :: "string \<Rightarrow> string \<Rightarrow> string" where
  "path_join a b =
     (if b \<noteq> [] \<and> hd b = CHR ''/'' then b
      else if a = [] \<or> last a = CHR ''/'' then a @ b
      else a @ ''/'' @ b)"

record env =
  expanduser :: "string \<Rightarrow> string"
  cwd :: "name list"
  du_sh :: "node \<Rightarrow> string \<Rightarrow> nat \<Rightarrow> exn + int \<times> string"
  subprocess_run :: "node \<Rightarrow> string list \<Rightarrow> nat \<Rightarrow> (exn + int \<times> string) \<times> node"

text \<open>
  \<open>expanduser\<close> is \<^verbatim>\<open>os.path.expanduser\<close>. \<open>du_sh env fs p t\<close> is
  \<^verbatim>\<open>subprocess.run(['du', '-sh', p], capture_output=True, text=True, timeout=t)\<close> on
  the file system \<open>fs\<close>: \<open>Inl e\<close> when the call raises (the utility is missing, the
  timeout expires, the output cannot be decoded), \<open>Inr (returncode, stdout)\<close> when the
  process ends; \<^verbatim>\<open>du\<close> only reads. \<open>subprocess_run env fs argv t\<close> is the same call
  for an arbitrary command, which may also change the file system.

  A path string names a location: the empty string names nothing, a path that starts
  with a slash is looked up from the root and any other from the working directory;
  empty components and \<^verbatim>\<open>.\<close> are skipped. The component \<^verbatim>\<open>..\<close> is not
  interpreted: it is looked up as a name, which no well-formed tree contains.
\<close>

definition resolve :: "env \<Rightarrow> string \<Rightarrow> name list option" where
  "resolve e p =
     (if p = [] then None
      else Some ((if hd p = CHR ''/'' then [] else cwd e) @ components p))"

definition node_at :: "env \<Rightarrow> node \<Rightarrow> string \<Rightarrow> node option" where
  "node_at e fs p = (case resolve e p of None \<Rightarrow> None | Some loc \<Rightarrow> lookup loc fs)"

definition path_exists :: "env \<Rightarrow> node \<Rightarrow> string \<Rightarrow> bool" where
  "path_exists e fs p = (node_at e fs p \<noteq> None)"

definition path_isdir :: "env \<Rightarrow> node \<Rightarrow> string \<Rightarrow> bool" where
  "path_isdir e fs p = (case node_at e fs p of Some (Dir f cs) \<Rightarrow> True | _ \<Rightarrow> False)"

subsection \<open>File-system calls\<close>

definition errno_text :: "string \<Rightarrow> string \<Rightarrow> string" where
  "errno_text m p = m @ '': '' @ [CHR 0x27] @ p @ [CHR 0x27]"

definition file_not_found :: "string \<Rightarrow> exn" where
  "file_not_found p = Exn FileNotFoundError (errno_text ''[Errno 2] No such file or directory'' p)"

definition not_a_directory :: "string \<Rightarrow> exn" where
  "not_a_directory p = Exn NotADirectoryError (errno_text ''[Errno 20] Not a directory'' p)"

definition is_a_directory :: "string \<Rightarrow> exn" where
  "is_a_directory p = Exn IsADirectoryError (errno_text ''[Errno 21] Is a directory'' p)"

text \<open>\<^verbatim>\<open>os.listdir(p)\<close>: the names of the children, or the exception raised.\<close>

definition os_listdir :: "env \<Rightarrow> node \<Rightarrow> string \<Rightarrow> exn + name list" where
  "os_listdir e fs p =
     (case node_at e fs p of
        None \<Rightarrow> Inl (file_not_found p)
      | Some (File f) \<Rightarrow> Inl (not_a_directory p)
      | Some (Dir f cs) \<Rightarrow> Inr (map fst cs))"

text \<open>
  \<^verbatim>\<open>os.remove(p)\<close>: the exception raised, if any, and the file system afterwards.
\<close>

definition os_remove :: "env \<Rightarrow> node \<Rightarrow> string \<Rightarrow> exn option \<times> node" where
  "os_remove e fs p =
     (case resolve e p of
        None \<Rightarrow> (Some (file_not_found p), fs)
      | Some loc \<Rightarrow>
          (case lookup loc fs of
             None \<Rightarrow> (Some (file_not_found p), fs)
           | Some (Dir f cs) \<Rightarrow> (Some (is_a_directory p), fs)
           | Some (File None) \<Rightarrow> (None, put loc None fs)
           | Some (File (Some x)) \<Rightarrow> (Some x, fs)))"

text \<open>
  \<^verbatim>\<open>shutil.rmtree\<close> on a directory, with its default error handler, which re-raises:
  the children are removed in listing order, subdirectories recursively, and then the
  directory itself. The first exception stops the walk; what was removed before stays
  removed. The result is the exception, if any, and what is left of the entry
  (\<open>None\<close> when it is gone). On a file, \<open>rmtree\<close> stands for the \<^verbatim>\<open>unlink\<close> that
  the walk, and \<^verbatim>\<open>os.remove\<close>, apply to it.
\<close>

fun rmtree :: "node \<Rightarrow> exn option \<times> node option"
and rmtree_entries :: "(name \<times> node) list \<Rightarrow> exn option \<times> (name \<times> node) list" where
  "rmtree (File f) =
     (case f of None \<Rightarrow> (None, None) | Some x \<Rightarrow> (Some x, Some (File f)))"
| "rmtree (Dir f cs) =
     (case rmtree_entries cs of
        (Some x, cs') \<Rightarrow> (Some x, Some (Dir f cs'))
      | (None, cs') \<Rightarrow>
          (case f of None \<Rightarrow> (None, None) | Some x \<Rightarrow> (Some x, Some (Dir f cs'))))"
| "rmtree_entries [] = (None, [])"
| "rmtree_entries ((n, c) # cs) =
     (case rmtree c of
        (Some x, r) \<Rightarrow> (Some x, (case r of None \<Rightarrow> cs | Some c' \<Rightarrow> (n, c') # cs))
      | (None, r) \<Rightarrow> rmtree_entries cs)"

definition shutil_rmtree :: "env \<Rightarrow> node \<Rightarrow> string \<Rightarrow> exn option \<times> node" where
  "shutil_rmtree e fs p =
     (case resolve e p of
        None \<Rightarrow> (Some (file_not_found p), fs)
      | Some loc \<Rightarrow>
          (case lookup loc fs of
             None \<Rightarrow> (Some (file_not_found p), fs)
           | Some (File f) \<Rightarrow> (Some (not_a_directory p), fs)
           | Some (Dir f cs) \<Rightarrow>
               (case rmtree (Dir f cs) of (x, r) \<Rightarrow> (x, put loc r fs))))"

subsection \<open>Python string methods\<close>

text \<open>
  Strings are lists of 8-bit characters; \<open>py_isspace\<close> is \<^verbatim>\<open>str.isspace\<close> on the
  ASCII range.
\<close>

definition py_isspace :: "char \<Rightarrow> bool" where
  "py_isspace c \<longleftrightarrow>
     c \<in> {CHR '' '', CHR 0x09, CHR 0x0A, CHR 0x0B, CHR 0x0C, CHR 0x0D,
          CHR 0x1C, CHR 0x1D, CHR 0x1E, CHR 0x1F}"

text \<open>\<^verbatim>\<open>s.strip()\<close>\<close>

definition strip :: "string \<Rightarrow> string" where
  "strip s = rev (dropWhile py_isspace (rev (dropWhile py_isspace s)))"

text \<open>\<^verbatim>\<open>s.split()\<close>: the maximal runs of characters that are not white space.\<close>

fun split_ws :: "string \<Rightarrow> string \<Rightarrow> string list" where
  "split_ws w [] = (if w = [] then [] else [w])"
| "split_ws w (c # cs) =
     (if py_isspace c then (if w = [] then split_ws [] cs else w # split_ws [] cs)
      else split_ws (w @ [c]) cs)"

definition py_split :: "string \<Rightarrow> string list" where
  "py_split s = split_ws [] s"

section \<open>The functions of \<^verbatim>\<open>xcode_cleanup.py\<close>\<close>

subsection \<open>\<^verbatim>\<open>get_directory_size\<close>\<close>

definition get_directory_size :: "env \<Rightarrow> node \<Rightarrow> string \<Rightarrow> string \<times> int" where
  "get_directory_size e fs path =
     (let expanded_path = expanduser e path in
      if \<not> path_exists e fs expanded_path then (''Not found'', 0)
      else
        (case du_sh e fs expanded_path 10 of
           Inl x \<Rightarrow> (''Error'', 0)
         | Inr (returncode, stdout) \<Rightarrow>
             if returncode = 0 then (strip (hd (split_on (CHR 0x09) stdout)), 1)
             else (''Error'', 0)))"

subsection \<open>\<^verbatim>\<open>clean_directory\<close>\<close>

text \<open>
  The body of the \<^verbatim>\<open>for item in os.listdir(expanded_path)\<close> loop, over the names not
  yet visited: the exception that leaves the loop, if any, and the file system then.
\<close>

fun remove_items :: "env \<Rightarrow> node \<Rightarrow> string \<Rightarrow> name list \<Rightarrow> exn option \<times> node" where
  "remove_items e fs expanded_path [] = (None, fs)"
| "remove_items e fs expanded_path (item # items) =
     (let item_path = path_join expanded_path item in
      case (if path_isdir e fs item_path then shutil_rmtree e fs item_path
            else os_remove e fs item_path) of
        (Some x, fs') \<Rightarrow> (Some x, fs')
      | (None, fs') \<Rightarrow> remove_items e fs' expanded_path items)"

text \<open>The \<^verbatim>\<open>try\<close> block: listing the directory may raise as well.\<close>

definition remove_contents :: "env \<Rightarrow> node \<Rightarrow> string \<Rightarrow> exn option \<times> node" where
  "remove_contents e fs expanded_path =
     (case os_listdir e fs expanded_path of
        Inl x \<Rightarrow> (Some x, fs)
      | Inr items \<Rightarrow> remove_items e fs expanded_path items)"

text \<open>The result is the returned triple and the file system the call leaves behind.\<close>

definition clean_directory :: "env \<Rightarrow> node \<Rightarrow> string \<Rightarrow> (bool \<times> string \<times> string) \<times> node" where
  "clean_directory e fs path =
     (let expanded_path = expanduser e path in
      if \<not> path_exists e fs expanded_path then ((True, ''Directory not found'', ''0B''), fs)
      else
        (let size_before = fst (get_directory_size e fs path) in
         case remove_contents e fs expanded_path of
           (None, fs') \<Rightarrow> ((True, ''Cleaned successfully'', size_before), fs')
         | (Some x, fs') \<Rightarrow> ((False, ''Error: '' @ str x, ''0B''), fs')))"

subsection \<open>\<^verbatim>\<open>execute_command\<close>\<close>

definition execute_command :: "env \<Rightarrow> node \<Rightarrow> string \<Rightarrow> (bool \<times> string) \<times> node" where
  "execute_command e fs command =
     (case subprocess_run e fs (py_split command) 30 of
        (Inr (returncode, stdout), fs') \<Rightarrow>
          if returncode = 0 then ((True, ''Executed successfully''), fs')
          else ((True, ''No unavailable simulators found''), fs')
      | (Inl x, fs') \<Rightarrow> ((False, ''Error: '' @ str x), fs'))"

subsection \<open>\<^verbatim>\<open>perform_cleanup\<close>\<close>

text \<open>An element of \<^verbatim>\<open>CATEGORIES\<close>, and an element of the list \<^verbatim>\<open>perform_cleanup\<close> returns.\<close>

record category =
  name :: string
  path :: string
  description :: string
  typical_size :: string
  safety :: string
  type :: string
  default :: bool

record outcome =
  o_name :: string
  success :: bool
  message :: string
  o_size :: string

text \<open>
  The \<^verbatim>\<open>for category in categories\<close> loop with the list \<^verbatim>\<open>results\<close> built so far.
  The progress bar only writes to the console and is left out.
\<close>

fun cleanup_loop :: "env \<Rightarrow> node \<Rightarrow> outcome list \<Rightarrow> category list \<Rightarrow> outcome list \<times> node" where
  "cleanup_loop e fs results [] = (results, fs)"
| "cleanup_loop e fs results (c # categories) =
     (if type c = ''directory'' then
        (case clean_directory e fs (path c) of
           ((ok, msg, sz), fs') \<Rightarrow>
             cleanup_loop e fs'
               (results @ [\<lparr>o_name = name c, success = ok, message = msg, o_size = sz\<rparr>])
               categories)
      else if type c = ''command'' then
        (case execute_command e fs (path c) of
           ((ok, msg), fs') \<Rightarrow>
             cleanup_loop e fs'
               (results @ [\<lparr>o_name = name c, success = ok, message = msg, o_size = ''N/A''\<rparr>])
               categories)
      else cleanup_loop e fs results categories)"

definition perform_cleanup :: "env \<Rightarrow> node \<Rightarrow> category list \<Rightarrow> outcome list \<times> node" where
  "perform_cleanup e fs categories = cleanup_loop e fs [] categories"

section \<open>Inside \<^verbatim>\<open>subprocess.run\<close>\<close>

text \<open>
  \<open>subprocess_run\<close> says whether the call \<^verbatim>\<open>subprocess.run(..., text=True, timeout=t)\<close>
  returned or raised. That is coarser than what happened to the external command: the
  command may not start at all (executable missing, empty argument list), it may be
  killed when the timeout expires, or it may terminate with an exit code and the bytes
  it wrote. In the last case \<^verbatim>\<open>text=True\<close> makes the call decode these bytes, which
  can raise as well. \<open>run_text launch decode\<close> is the call built from what the command
  does (\<open>launch\<close>) and the decoder of the locale (\<open>decode\<close>).
\<close>

datatype proc_event = NotStarted exn | TimedOut exn | Exited int string

definition run_text ::
  "(node \<Rightarrow> string list \<Rightarrow> nat \<Rightarrow> proc_event \<times> node) \<Rightarrow> (string \<Rightarrow> exn + string) \<Rightarrow>
     node \<Rightarrow> string list \<Rightarrow> nat \<Rightarrow> (exn + int \<times> string) \<times> node" where
  "run_text launch decode fs argv t =
     (case launch fs argv t of
        (NotStarted x, fs') \<Rightarrow> (Inl x, fs')
      | (TimedOut x, fs') \<Rightarrow> (Inl x, fs')
      | (Exited returncode out, fs') \<Rightarrow>
          (case decode out of
             Inl x \<Rightarrow> (Inl x, fs')
           | Inr stdout \<Rightarrow> (Inr (returncode, stdout), fs')))"

section \<open>Notions used to state the properties\<close>

text \<open>An entry can be removed when removing it (recursively, for a directory) raises nothing.\<close>

definition removable :: "node \<Rightarrow> bool" where
  "removable t \<longleftrightarrow> fst (rmtree t) = None"

text \<open>The targets \<^verbatim>\<open>perform_cleanup\<close> dispatches on.\<close>

definition known_kind :: "category \<Rightarrow> bool" where
  "known_kind c \<longleftrightarrow> type c = ''directory'' \<or> type c = ''command''"






section \<open>A concrete machine\<close>

text \<open>
  A small world on which the functions can be run: the home directory is
  \<^verbatim>\<open>/Users/dev\<close>, \<^verbatim>\<open>DerivedData\<close> holds two folders and a file, one file
  below \<^verbatim>\<open>iOS DeviceSupport\<close> cannot be deleted, and \<^verbatim>\<open>Archives\<close> holds a file
  that cannot be deleted and a script.
\<close>

definition ex_expanduser :: "string \<Rightarrow> string" where
  "ex_expanduser p = (if p = ''~'' \<or> take 2 p = ''~/'' then ''/Users/dev'' @ tl p else p)"

definition denied :: exn where
  "denied = Exn PermissionError ''[Errno 13] Permission denied''"

definition ex_derived :: "(name \<times> node) list" where
  "ex_derived =
     [(''App-abc'', Dir None [(''Build'', Dir None [(''a.o'', File None)])]),
      (''Lib-def'', Dir None []),
      (''info.plist'', File None)]"

definition ex_support :: "(name \<times> node) list" where
  "ex_support =
     [(''16.4'', Dir None [(''Symbols'', File None)]),
      (''17.0'', Dir None [(''dyld'', File (Some denied)), (''Symbols'', File None)]),
      (''17.2'', Dir None [])]"

definition ex_archives :: "(name \<times> node) list" where
  "ex_archives = [(''locked.xcarchive'', File (Some denied)), (''export.sh'', File None)]"

definition ex_xcode :: node where
  "ex_xcode = Dir None
     [(''DerivedData'', Dir None ex_derived),
      (''iOS DeviceSupport'', Dir None ex_support),
      (''Archives'', Dir None ex_archives)]"

definition ex_fs :: node where
  "ex_fs = Dir None
     [(''Users'', Dir None
        [(''dev'', Dir None
           [(''Library'', Dir None
              [(''Developer'', Dir None [(''Xcode'', ex_xcode)])])])])]"

definition ex_du :: "node \<Rightarrow> string \<Rightarrow> nat \<Rightarrow> exn + int \<times> string" where
  "ex_du fs p t =
     (case lookup (components p) fs of
        None \<Rightarrow> Inr (1, [])
      | Some (File f) \<Rightarrow> Inr (0, ''4,0K'' @ [CHR 0x09] @ p @ [CHR 0x0A])
      | Some (Dir f cs) \<Rightarrow>
          Inr (0, (if cs = [] then ''0B'' else ''1,2G'') @ [CHR 0x09] @ p @ [CHR 0x0A]))"

definition ex_run :: "node \<Rightarrow> string list \<Rightarrow> nat \<Rightarrow> (exn + int \<times> string) \<times> node" where
  "ex_run fs argv t =
     (case argv of
        [] \<Rightarrow> (Inl (Exn OtherException ''list index out of range''), fs)
      | prog # args \<Rightarrow>
          if prog = ''xcrun'' then (Inr (0, []), fs)
          else if prog = ''false'' then (Inr (1, []), fs)
          else (Inl (file_not_found prog), fs))"

definition ex_env :: env where
  "ex_env = \<lparr>expanduser = ex_expanduser, cwd = [], du_sh = ex_du, subprocess_run = ex_run\<rparr>"



text \<open>
  The same machine with the commands described by what they do: \<^verbatim>\<open>xcrun\<close> ends with
  exit code 0, \<^verbatim>\<open>false\<close> with exit code 1, \<^verbatim>\<open>garble\<close> ends with exit code 0 after
  writing the bytes FF FE, \<^verbatim>\<open>sleep\<close> is killed by the timeout and nothing else is
  installed. The decoder rejects output that starts with the byte FF, as UTF-8 does, and
  passes all other output through.
\<close>

definition ex_launch :: "node \<Rightarrow> string list \<Rightarrow> nat \<Rightarrow> proc_event \<times> node" where
  "ex_launch fs argv t =
     (case argv of
        [] \<Rightarrow> (NotStarted (Exn OtherException ''list index out of range''), fs)
      | prog # args \<Rightarrow>
          if prog = ''xcrun'' then (Exited 0 [], fs)
          else if prog = ''false'' then (Exited 1 [], fs)
          else if prog = ''garble'' then (Exited 0 [CHR 0xFF, CHR 0xFE], fs)
          else if prog = ''sleep'' then
            (TimedOut (Exn TimeoutExpired ''Command timed out after 30 seconds''), fs)
          else (NotStarted (file_not_found prog), fs))"

definition undecodable :: exn where
  "undecodable = Exn UnicodeDecodeError
     ([CHR 0x27] @ ''utf-8'' @ [CHR 0x27] @ '' codec can'' @ [CHR 0x27] @
      ''t decode byte 0xff in position 0: invalid start byte'')"

definition ex_decode :: "string \<Rightarrow> exn + string" where
  "ex_decode out = (if out \<noteq> [] \<and> hd out = CHR 0xFF then Inl undecodable else Inr out)"

definition text_env :: env where
  "text_env = ex_env\<lparr>subprocess_run := run_text ex_launch ex_decode\<rparr>"

text \<open>The same machine with a \<^verbatim>\<open>du\<close> that never answers in time.\<close>

definition timed_out :: exn where
  "timed_out = Exn TimeoutExpired ''Command timed out after 10 seconds''"

definition slow_env :: env where
  "slow_env = ex_env\<lparr>du_sh := \<lambda>fs p t. Inl timed_out\<rparr>"

text \<open>Five entries of \<^verbatim>\<open>CATEGORIES\<close>, and five targets that are not in the registry.\<close>

definition derived_data :: category where
  "derived_data = \<lparr>name = ''Derived Data'',
     path = ''~/Library/Developer/Xcode/DerivedData'',
     description = ''Build artifacts and intermediate files. Safe to delete - Xcode will rebuild them.'',
     typical_size = ''5-50GB'', safety = ''safe'', type = ''directory'', default = True\<rparr>"

definition unavailable_simulators :: category where
  "unavailable_simulators = \<lparr>name = ''Unavailable Simulators'',
     path = ''xcrun simctl delete unavailable'',
     description = ''Removes old iOS Simulator instances that are no longer available.'',
     typical_size = ''Varies'', safety = ''safe'', type = ''command'', default = True\<rparr>"

definition device_support :: category where
  "device_support = \<lparr>name = ''Device Support Files'',
     path = ''~/Library/Developer/Xcode/iOS DeviceSupport'',
     description = ''Support files for old iOS versions from connected devices.'',
     typical_size = ''1-10GB'', safety = ''safe'', type = ''directory'', default = True\<rparr>"

definition previews :: category where
  "previews = \<lparr>name = ''Xcode Previews'',
     path = ''~/Library/Developer/Xcode/Previews'',
     description = ''SwiftUI Preview cache files. Safe to delete - Xcode will regenerate them.'',
     typical_size = ''500MB-2GB'', safety = ''safe'', type = ''directory'', default = True\<rparr>"



definition garbled_tool :: category where
  "garbled_tool = \<lparr>name = ''Garbled Tool'', path = ''garble'',
     description = [], typical_size = ''Varies'', safety = ''safe'', type = ''command'',
     default = False\<rparr>"

definition sleeping_tool :: category where
  "sleeping_tool = \<lparr>name = ''Sleeping Tool'', path = ''sleep 60'',
     description = [], typical_size = ''Varies'', safety = ''safe'', type = ''command'',
     default = False\<rparr>"

definition missing_tool :: category where
  "missing_tool = \<lparr>name = ''Missing Tool'', path = ''no-such-tool --purge'',
     description = [], typical_size = ''Varies'', safety = ''safe'', type = ''command'',
     default = False\<rparr>"

definition odd_target :: category where
  "odd_target = \<lparr>name = ''Odd'', path = ''~/Library/Logs'',
     description = [], typical_size = ''Varies'', safety = ''safe'', type = ''file'',
     default = False\<rparr>"

section \<open>Auxiliary facts\<close>

subsection \<open>Paths and trees\<close>

lemma split_on_nonempty: "split_on sep s \<noteq> []"
  by (induction s) (auto split: list.splits)

lemma split_on_append_sep: "split_on sep (a @ sep # b) = split_on sep a @ split_on sep b"
proof (induction a)
  case Nil
  show ?case by simp
next
  case (Cons c a)
  then show ?case
    using split_on_nonempty [of sep a]
    by (cases "split_on sep a") auto
qed

lemma split_on_no_sep: "sep \<notin> set n \<Longrightarrow> split_on sep n = [n]"
  by (induction n) auto

lemma components_path_join:
  assumes "valid_name n" and "p \<noteq> []"
  shows "components (path_join p n) = components p @ [n]"
proof -
  from assms(1) have n: "n \<noteq> []" "CHR ''/'' \<notin> set n" "n \<noteq> ''.''"
    by (auto simp: valid_name_def)
  then have hd: "hd n \<noteq> CHR ''/''" by (cases n) auto
  show ?thesis
  proof (cases "last p = CHR ''/''")
    case True
    with assms(2) obtain q where q: "p = q @ ''/''"
      by (metis append_butlast_last_id)
    have "path_join p n = q @ CHR ''/'' # n"
      using True hd n assms(2) q by (simp add: path_join_def)
    then show ?thesis
      using n q by (simp add: components_def split_on_append_sep split_on_no_sep)
  next
    case False
    then have "path_join p n = p @ CHR ''/'' # n"
      using hd n assms(2) by (simp add: path_join_def)
    then show ?thesis
      using n by (simp add: components_def split_on_append_sep split_on_no_sep)
  qed
qed

lemma resolve_path_join:
  assumes "valid_name n" and "resolve e p = Some loc"
  shows "resolve e (path_join p n) = Some (loc @ [n])"
proof -
  from assms(2) have p: "p \<noteq> []" by (auto simp: resolve_def split: if_splits)
  from assms(1) have n: "n \<noteq> []" "hd n \<noteq> CHR ''/''"
    by (cases n; auto simp: valid_name_def)+
  have "path_join p n \<noteq> []" using p n by (auto simp: path_join_def)
  moreover have "hd (path_join p n) = hd p" using p n by (auto simp: path_join_def)
  ultimately show ?thesis
    using assms p by (auto simp: resolve_def components_path_join split: if_splits)
qed


lemma lookup_snoc:
  "lookup (loc @ [n]) fs =
     (case lookup loc fs of Some (Dir f cs) \<Rightarrow> map_of cs n | _ \<Rightarrow> None)"
  by (induction loc arbitrary: fs) (auto split: node.splits option.splits)

lemma put_here: "put [] (Some d) t = d"
  by simp

lemma put_snoc:
  assumes "lookup loc fs = Some (Dir f cs)" and "map_of cs n = Some c"
  shows "put (loc @ [n]) r fs =
           put loc (Some (Dir f (case r of None \<Rightarrow> AList.delete n cs
                                 | Some c' \<Rightarrow> AList.update n c' cs))) fs"
  using assms
proof (induction loc arbitrary: fs)
  case Nil
  then show ?case by (auto split: option.splits)
next
  case (Cons m ms)
  from Cons.prems(1) obtain g ds c0 where
    fs: "fs = Dir g ds" and m: "map_of ds m = Some c0" and c0: "lookup ms c0 = Some (Dir f cs)"
    by (auto split: node.splits option.splits)
  from Cons.IH [OF c0 Cons.prems(2)] show ?case
    by (simp add: fs m)
qed

lemma lookup_put_same:
  "lookup loc fs \<noteq> None \<Longrightarrow> lookup loc (put loc (Some d) fs) = Some d"
  by (induction loc arbitrary: fs) (auto simp: update_conv' split: node.splits option.splits)

lemma put_put_same:
  "lookup loc fs \<noteq> None \<Longrightarrow> put loc (Some d') (put loc (Some d) fs) = put loc (Some d') fs"
  by (induction loc arbitrary: fs) (auto simp: update_conv' split: node.splits option.splits)

lemma put_current:
  "lookup loc fs = Some d \<Longrightarrow> put loc (Some d) fs = fs"
  by (induction loc arbitrary: fs) (auto simp: update_triv split: node.splits option.splits)


lemma rmtree_ok_gone:
  "rmtree t = (None, r) \<Longrightarrow> r = None"
  "rmtree_entries cs = (None, cs') \<Longrightarrow> cs' = []"
  by (induction t and cs arbitrary: r and cs' rule: rmtree_rmtree_entries.induct)
     (auto split: option.splits prod.splits)


lemma node_at_child:
  assumes "valid_name n" and "resolve e p = Some loc" and "lookup loc fs = Some (Dir f cs)"
  shows "node_at e fs (path_join p n) = map_of cs n"
  using assms by (simp add: node_at_def resolve_path_join lookup_snoc)

lemma remove_items_rmtree_entries:
  assumes "resolve e p = Some loc"
    and "lookup loc fs = Some (Dir f cs)"
    and "distinct (map fst cs)"
    and "\<forall>n \<in> set (map fst cs). valid_name n"
  shows "remove_items e fs p (map fst cs) =
           (fst (rmtree_entries cs), put loc (Some (Dir f (snd (rmtree_entries cs)))) fs)"
  using assms(2-)
proof (induction cs arbitrary: fs)
  case Nil
  then show ?case by (simp add: put_current)
next
  case (Cons a cs)
  obtain n c where a: "a = (n, c)" by (cases a)
  from Cons.prems a have n: "valid_name n" and nfresh: "n \<notin> fst ` set cs"
    and dist: "distinct (map fst cs)" and valid: "\<forall>n \<in> set (map fst cs). valid_name n"
    by auto
  have here: "lookup loc fs = Some (Dir f ((n, c) # cs))"
    using Cons.prems(1) a by simp
  have at: "node_at e fs (path_join p n) = Some c"
    using node_at_child [OF n assms(1) here] by simp
  have res: "resolve e (path_join p n) = Some (loc @ [n])"
    by (rule resolve_path_join [OF n assms(1)])
  have look: "lookup (loc @ [n]) fs = Some c"
    using at res by (simp add: node_at_def)
  have del: "AList.delete n ((n, c) # cs) = cs"
    using nfresh by (simp add: delete_id)
  have putn: "put (loc @ [n]) r fs =
      put loc (Some (Dir f (case r of None \<Rightarrow> cs | Some c' \<Rightarrow> (n, c') # cs))) fs" for r
    using put_snoc [OF here, of n c r] del by (cases r) simp_all
  have step: "(if path_isdir e fs (path_join p n) then shutil_rmtree e fs (path_join p n)
               else os_remove e fs (path_join p n)) =
              (fst (rmtree c), put (loc @ [n]) (snd (rmtree c)) fs)"
  proof (cases c)
    case (File g)
    then show ?thesis
      using at res look put_current [OF here] putn [of "Some (File g)"]
      by (cases g) (simp_all add: path_isdir_def os_remove_def)
  next
    case (Dir g ds)
    then show ?thesis
      using at res look
      by (simp add: path_isdir_def shutil_rmtree_def split: prod.splits)
  qed
  show ?case
  proof (cases "fst (rmtree c)")
    case (Some x)
    then obtain r where r: "rmtree c = (Some x, r)" by (cases "rmtree c") auto
    then show ?thesis
      using step putn [of r] a by (simp split: option.splits)
  next
    case None
    then have r: "rmtree c = (None, None)"
      using rmtree_ok_gone(1) [of c] by (cases "rmtree c") auto
    let ?fs1 = "put loc (Some (Dir f cs)) fs"
    have fs1: "lookup loc ?fs1 = Some (Dir f cs)"
      using here by (simp add: lookup_put_same)
    have "remove_items e fs p (map fst (a # cs)) = remove_items e ?fs1 p (map fst cs)"
      using step r putn [of None] a by simp
    also have "\<dots> = (fst (rmtree_entries cs),
        put loc (Some (Dir f (snd (rmtree_entries cs)))) ?fs1)"
      by (rule Cons.IH [OF fs1 dist valid])
    also have "\<dots> = (fst (rmtree_entries cs), put loc (Some (Dir f (snd (rmtree_entries cs)))) fs)"
      using here by (simp add: put_put_same)
    finally show ?thesis
      using r a by simp
  qed
qed


lemma wf_entries_map_of:
  "wf_entries cs \<Longrightarrow> map_of cs n = Some c \<Longrightarrow> wf_node c"
  by (induction cs) (auto split: if_splits)

lemma wf_entries_names:
  "wf_entries cs \<Longrightarrow> (n, c) \<in> set cs \<Longrightarrow> valid_name n"
  by (induction cs) auto

lemma wf_lookup:
  "wf_node fs \<Longrightarrow> lookup loc fs = Some t \<Longrightarrow> wf_node t"
  by (induction loc arbitrary: fs)
     (auto split: node.splits option.splits dest: wf_entries_map_of)

lemma wf_dir_at:
  assumes "wf_node fs" and "lookup loc fs = Some (Dir f cs)"
  shows "distinct (map fst cs)" and "\<forall>n \<in> set (map fst cs). valid_name n"
  using wf_lookup [OF assms] by (auto dest: wf_entries_names)

lemma map_fst_update:
  "map_of ds m = Some c \<Longrightarrow> map fst (AList.update m x ds) = map fst ds"
  by (induction ds) (auto split: if_splits)

lemma put_cons_some:
  "map_of ds m = Some c \<Longrightarrow>
     put (m # ms) (Some d) (Dir g ds) = Dir g (AList.update m (put ms (Some d) c) ds)"
  by simp

lemma stat_put_frame:
  assumes "lookup loc fs = Some (Dir f cs)" and "\<not> prefix loc q"
  shows "stat (put loc (Some (Dir f cs')) fs) q = stat fs q"
  using assms
proof (induction loc arbitrary: fs q)
  case Nil
  then show ?case by simp
next
  case (Cons m ms)
  from Cons.prems(1) obtain g ds c0 where
    fs: "fs = Dir g ds" and m: "map_of ds m = Some c0" and c0: "lookup ms c0 = Some (Dir f cs)"
    by (auto split: node.splits option.splits)
  let ?c1 = "put ms (Some (Dir f cs')) c0"
  have p: "put (m # ms) (Some (Dir f cs')) fs = Dir g (AList.update m ?c1 ds)"
    unfolding fs by (rule put_cons_some [OF m])
  show ?case
  proof (cases q)
    case Nil
    then show ?thesis
      unfolding p by (simp add: stat_def fs map_fst_update [OF m])
  next
    case (Cons k qs)
    show ?thesis
    proof (cases "k = m")
      case True
      with Cons Cons.prems(2) have "\<not> prefix ms qs" by simp
      from Cons.IH [OF c0 this] show ?thesis
        unfolding p using Cons True m by (simp add: stat_def fs update_conv')
    next
      case False
      then show ?thesis
        unfolding p using Cons by (simp add: stat_def fs update_conv')
    qed
  qed
qed

lemma rmtree_entries_all_removable:
  "\<forall>c \<in> snd ` set cs. removable c \<Longrightarrow> rmtree_entries cs = (None, [])"
proof (induction cs)
  case Nil
  show ?case by simp
next
  case (Cons a cs)
  obtain n c where a: "a = (n, c)" by (cases a)
  with Cons.prems have "fst (rmtree c) = None" by (simp add: removable_def)
  then obtain r where "rmtree c = (None, r)" by (cases "rmtree c") auto
  with Cons a show ?case by simp
qed

lemma rmtree_entries_unremovable:
  "c \<in> snd ` set cs \<Longrightarrow> \<not> removable c \<Longrightarrow> fst (rmtree_entries cs) \<noteq> None"
proof (induction cs)
  case Nil
  then show ?case by simp
next
  case (Cons a cs)
  obtain n d where a: "a = (n, d)" by (cases a)
  show ?case
  proof (cases "fst (rmtree d)")
    case None
    then obtain r where r: "rmtree d = (None, r)" by (cases "rmtree d") auto
    with None Cons.prems a have "c \<in> snd ` set cs" by (auto simp: removable_def)
    with Cons r a show ?thesis by simp
  next
    case (Some x)
    then obtain r where "rmtree d = (Some x, r)" by (cases "rmtree d") auto
    with a show ?thesis by simp
  qed
qed

text \<open>
  On a well-formed tree the loop of \<^verbatim>\<open>clean_directory\<close> does to the directory what
  \<open>rmtree_entries\<close> does to its children.
\<close>

lemma remove_contents_dir:
  assumes "wf_node fs" and "resolve e p = Some loc" and "lookup loc fs = Some (Dir f cs)"
  shows "remove_contents e fs p =
           (fst (rmtree_entries cs), put loc (Some (Dir f (snd (rmtree_entries cs)))) fs)"
proof -
  have "os_listdir e fs p = Inr (map fst cs)"
    using assms(2,3) by (simp add: os_listdir_def node_at_def)
  then show ?thesis
    using remove_items_rmtree_entries [OF assms(2,3) wf_dir_at [OF assms(1,3)]]
    by (simp add: remove_contents_def)
qed

lemma path_exists_resolved:
  "resolve e p = Some loc \<Longrightarrow> path_exists e fs p \<longleftrightarrow> lookup loc fs \<noteq> None"
  by (simp add: path_exists_def node_at_def)

lemma clean_directory_dir:
  assumes "wf_node fs" and "resolve e (expanduser e p) = Some loc"
    and "lookup loc fs = Some (Dir f cs)"
  shows "clean_directory e fs p =
     ((case fst (rmtree_entries cs) of
         None \<Rightarrow> (True, ''Cleaned successfully'', fst (get_directory_size e fs p))
       | Some x \<Rightarrow> (False, ''Error: '' @ str x, ''0B'')),
      put loc (Some (Dir f (snd (rmtree_entries cs)))) fs)"
  using remove_contents_dir [OF assms] path_exists_resolved [OF assms(2), of fs] assms(3)
  by (simp add: clean_directory_def Let_def split: option.splits)


subsection \<open>The loop of \<^verbatim>\<open>perform_cleanup\<close>\<close>

lemma cleanup_loop_results:
  "cleanup_loop e fs results cs =
     (results @ fst (cleanup_loop e fs [] cs), snd (cleanup_loop e fs [] cs))"
proof (induction cs arbitrary: fs results)
  case Nil
  show ?case by simp
next
  case (Cons c cs)
  note IH = Cons.IH
  show ?case
  proof (cases "type c = ''directory''")
    case True
    obtain ok msg sz fs' where cd: "clean_directory e fs (path c) = ((ok, msg, sz), fs')"
      by (metis prod.exhaust)
    show ?thesis
      using True cd
        IH [of fs' "results @ [\<lparr>o_name = name c, success = ok, message = msg, o_size = sz\<rparr>]"]
        IH [of fs' "[\<lparr>o_name = name c, success = ok, message = msg, o_size = sz\<rparr>]"]
      by simp
  next
    case False
    show ?thesis
    proof (cases "type c = ''command''")
      case True
      obtain ok msg fs' where ec: "execute_command e fs (path c) = ((ok, msg), fs')"
        by (metis prod.exhaust)
      show ?thesis
        using False True ec
          IH [of fs' "results @ [\<lparr>o_name = name c, success = ok, message = msg, o_size = ''N/A''\<rparr>]"]
          IH [of fs' "[\<lparr>o_name = name c, success = ok, message = msg, o_size = ''N/A''\<rparr>]"]
        by simp
    next
      case other: False
      show ?thesis
        using False other IH [of fs results] by simp
    qed
  qed
qed

lemma perform_cleanup_Nil: "perform_cleanup e fs [] = ([], fs)"
  by (simp add: perform_cleanup_def)

lemma perform_cleanup_directory:
  assumes "type c = ''directory''"
  shows "perform_cleanup e fs (c # cs) =
    (\<lparr>o_name = name c, success = fst (fst (clean_directory e fs (path c))),
       message = fst (snd (fst (clean_directory e fs (path c)))),
       o_size = snd (snd (fst (clean_directory e fs (path c))))\<rparr>
     # fst (perform_cleanup e (snd (clean_directory e fs (path c))) cs),
     snd (perform_cleanup e (snd (clean_directory e fs (path c))) cs))"
proof -
  obtain ok msg sz fs' where cd: "clean_directory e fs (path c) = ((ok, msg, sz), fs')"
    by (metis prod.exhaust)
  show ?thesis
    using assms cd
      cleanup_loop_results [of e fs' "[\<lparr>o_name = name c, success = ok, message = msg, o_size = sz\<rparr>]" cs]
    by (simp add: perform_cleanup_def)
qed

lemma perform_cleanup_command:
  assumes "type c = ''command''"
  shows "perform_cleanup e fs (c # cs) =
    (\<lparr>o_name = name c, success = fst (fst (execute_command e fs (path c))),
       message = snd (fst (execute_command e fs (path c))), o_size = ''N/A''\<rparr>
     # fst (perform_cleanup e (snd (execute_command e fs (path c))) cs),
     snd (perform_cleanup e (snd (execute_command e fs (path c))) cs))"
proof -
  obtain ok msg fs' where ec: "execute_command e fs (path c) = ((ok, msg), fs')"
    by (metis prod.exhaust)
  have "type c \<noteq> ''directory''" using assms by simp
  then show ?thesis
    using assms ec
      cleanup_loop_results [of e fs' "[\<lparr>o_name = name c, success = ok, message = msg, o_size = ''N/A''\<rparr>]" cs]
    by (simp add: perform_cleanup_def)
qed

lemma perform_cleanup_other:
  "\<not> known_kind c \<Longrightarrow> perform_cleanup e fs (c # cs) = perform_cleanup e fs cs"
  by (simp add: perform_cleanup_def known_kind_def)

lemma perform_cleanup_append:
  "perform_cleanup e fs (xs @ ys) =
     (fst (perform_cleanup e fs xs) @ fst (perform_cleanup e (snd (perform_cleanup e fs xs)) ys),
      snd (perform_cleanup e (snd (perform_cleanup e fs xs)) ys))"
proof (induction xs arbitrary: fs)
  case Nil
  show ?case by (simp add: perform_cleanup_Nil)
next
  case (Cons c xs)
  consider (d) "type c = ''directory''" | (c) "type c = ''command''" | (o) "\<not> known_kind c"
    by (auto simp: known_kind_def)
  then show ?case
  proof cases
    case d
    show ?thesis
      using Cons.IH [of "snd (clean_directory e fs (path c))"]
      by (simp add: perform_cleanup_directory [OF d])
  next
    case c
    show ?thesis
      using Cons.IH [of "snd (execute_command e fs (path c))"]
      by (simp add: perform_cleanup_command [OF c])
  next
    case o
    show ?thesis
      using Cons.IH [of fs] by (simp add: perform_cleanup_other [OF o])
  qed
qed

lemma perform_cleanup_names:
  "map o_name (fst (perform_cleanup e fs cs)) = map name (filter known_kind cs)"
proof (induction cs arbitrary: fs)
  case Nil
  show ?case by (simp add: perform_cleanup_Nil)
next
  case (Cons c cs)
  consider (d) "type c = ''directory''" | (c) "type c = ''command''" | (o) "\<not> known_kind c"
    by (auto simp: known_kind_def)
  then show ?case
  proof cases
    case d
    then show ?thesis
      using Cons.IH by (simp add: perform_cleanup_directory known_kind_def)
  next
    case c
    then show ?thesis
      using Cons.IH by (simp add: perform_cleanup_command known_kind_def)
  next
    case o
    then show ?thesis
      using Cons.IH by (simp add: perform_cleanup_other)
  qed
qed

lemma perform_cleanup_length:
  "length (fst (perform_cleanup e fs cs)) = length (filter known_kind cs)"
  using arg_cong [OF perform_cleanup_names [of e fs cs], of length] by simp





subsection \<open>Taking failures away\<close>






























lemma run_text_cases:
  "launch fs argv t = (Exited rc out, fs') \<Longrightarrow> decode out = Inr s \<Longrightarrow>
     run_text launch decode fs argv t = (Inr (rc, s), fs')"
  "launch fs argv t = (Exited rc out, fs') \<Longrightarrow> decode out = Inl x \<Longrightarrow>
     run_text launch decode fs argv t = (Inl x, fs')"
  "launch fs argv t = (NotStarted x, fs') \<Longrightarrow> run_text launch decode fs argv t = (Inl x, fs')"
  "launch fs argv t = (TimedOut x, fs') \<Longrightarrow> run_text launch decode fs argv t = (Inl x, fs')"
  by (simp_all add: run_text_def)

section \<open>The claims\<close>

text \<open>
  Claim C8. \<^verbatim>\<open>get_directory_size\<close> returns the pair \<^verbatim>\<open>("Not found", 0)\<close> when the
  expanded path does not exist, and only then; when the path exists and the
  \<^verbatim>\<open>du\<close> call, bounded by a timeout of 10, raises (timeout or any other failure of
  the invocation), it returns \<^verbatim>\<open>("Error", 0)\<close>. No exception leaves the function:
  its result is always a pair.
\<close>

theorem get_directory_size_markers:
  "(\<not> path_exists e fs (expanduser e p) \<longrightarrow> get_directory_size e fs p = (''Not found'', 0)) \<and>
   (path_exists e fs (expanduser e p) \<longrightarrow> get_directory_size e fs p \<noteq> (''Not found'', 0)) \<and>
   (path_exists e fs (expanduser e p) \<and> du_sh e fs (expanduser e p) 10 = Inl x \<longrightarrow>
      get_directory_size e fs p = (''Error'', 0))"
  by (auto simp: get_directory_size_def Let_def split: sum.splits)

theorem get_directory_size_markers_witness:
  "\<not> path_exists ex_env ex_fs (expanduser ex_env (path previews)) \<and>
   get_directory_size ex_env ex_fs (path previews) = (''Not found'', 0) \<and>
   path_exists slow_env ex_fs (expanduser slow_env (path derived_data)) \<and>
   du_sh slow_env ex_fs (expanduser slow_env (path derived_data)) 10 = Inl timed_out \<and>
   get_directory_size slow_env ex_fs (path derived_data) = (''Error'', 0) \<and>
   get_directory_size slow_env ex_fs (path derived_data) \<noteq> (''Not found'', 0)"
proof -
  have a: "\<not> path_exists ex_env ex_fs (expanduser ex_env (path previews))"
    by code_simp
  have b: "path_exists slow_env ex_fs (expanduser slow_env (path derived_data))"
    by code_simp
  have c: "du_sh slow_env ex_fs (expanduser slow_env (path derived_data)) 10 = Inl timed_out"
    by (simp add: slow_env_def)
  show ?thesis
    using a b c
      get_directory_size_markers [of ex_env ex_fs "path previews"]
      get_directory_size_markers [of slow_env ex_fs "path derived_data" timed_out]
    by blast
qed

text \<open>
  Claim C10. When the path exists but the size computation fails (the \<^verbatim>\<open>du\<close> call
  raises, a timeout included, or ends with a non-zero return code), the flag returned
  by \<^verbatim>\<open>get_directory_size\<close> is 0, which is also the flag it returns for any absent
  path: the flag alone does not tell the two situations apart.
\<close>

theorem get_directory_size_flag_ambiguous:
  assumes "path_exists e fs (expanduser e p)"
    and "(\<exists>x. du_sh e fs (expanduser e p) 10 = Inl x) \<or>
         (\<exists>rc out. du_sh e fs (expanduser e p) 10 = Inr (rc, out) \<and> rc \<noteq> 0)"
    and "\<not> path_exists e' fs' (expanduser e' p')"
  shows "snd (get_directory_size e fs p) = 0 \<and>
         snd (get_directory_size e fs p) = snd (get_directory_size e' fs' p')"
  using assms by (auto simp: get_directory_size_def Let_def)

theorem get_directory_size_flag_ambiguous_witness:
  "path_exists slow_env ex_fs (expanduser slow_env (path derived_data)) \<and>
   du_sh slow_env ex_fs (expanduser slow_env (path derived_data)) 10 = Inl timed_out \<and>
   \<not> path_exists slow_env ex_fs (expanduser slow_env (path previews)) \<and>
   snd (get_directory_size slow_env ex_fs (path derived_data)) = 0 \<and>
   snd (get_directory_size slow_env ex_fs (path previews)) = 0"
proof -
  have a: "path_exists slow_env ex_fs (expanduser slow_env (path derived_data))"
    by code_simp
  have b: "du_sh slow_env ex_fs (expanduser slow_env (path derived_data)) 10 = Inl timed_out"
    by (simp add: slow_env_def)
  have c: "\<not> path_exists slow_env ex_fs (expanduser slow_env (path previews))"
    by code_simp
  from b have b': "(\<exists>x. du_sh slow_env ex_fs (expanduser slow_env (path derived_data)) 10 = Inl x) \<or>
      (\<exists>rc out. du_sh slow_env ex_fs (expanduser slow_env (path derived_data)) 10 = Inr (rc, out) \<and> rc \<noteq> 0)"
    by blast
  show ?thesis
    using a b c get_directory_size_flag_ambiguous [OF a b' c] by simp
qed

text \<open>
  Claim C3 as stated fails: a command can terminate with exit code 0 and still give
  \<open>success = False\<close>. The command \<^verbatim>\<open>garble\<close> ends with exit code 0 after writing
  bytes that are not text; \<^verbatim>\<open>subprocess.run\<close> with \<^verbatim>\<open>text=True\<close> raises while
  decoding them, and \<^verbatim>\<open>execute_command\<close> reports the exception.
\<close>

theorem command_outcome_counterexample:
  "type garbled_tool = ''command'' \<and>
   ex_launch ex_fs (py_split (path garbled_tool)) 30 = (Exited 0 [CHR 0xFF, CHR 0xFE], ex_fs) \<and>
   fst (perform_cleanup text_env ex_fs [garbled_tool]) =
     [\<lparr>o_name = ''Garbled Tool'', success = False,
        message = ''Error: '' @ str undecodable, o_size = ''N/A''\<rparr>]"
  by code_simp

text \<open>
  Claim C3, amended. For a target of type \<^verbatim>\<open>command\<close>, the outcome
  \<^verbatim>\<open>perform_cleanup\<close> appends has \<open>success = True\<close> whenever the call of
  \<^verbatim>\<open>subprocess.run\<close> returns, with return code zero or not, and \<open>success = False\<close>
  exactly when that call raises; the message is then \<^verbatim>\<open>"Error: "\<close> followed by the
  description of the exception, and the size is \<^verbatim>\<open>"N/A"\<close> in every case. In terms
  of the command: when it terminates, with any exit code, and its output can be decoded,
  the outcome is a success; when it terminates but its output cannot be decoded, when it
  does not start (executable missing) or when the timeout expires, the outcome is a
  failure carrying that exception.
\<close>

theorem command_outcome:
  assumes "type c = ''command''"
  shows "(\<forall>rc out fs'. subprocess_run e fs (py_split (path c)) 30 = (Inr (rc, out), fs') \<longrightarrow>
            perform_cleanup e fs (c # cs) =
              (\<lparr>o_name = name c, success = True,
                 message = (if rc = 0 then ''Executed successfully''
                            else ''No unavailable simulators found''),
                 o_size = ''N/A''\<rparr> # fst (perform_cleanup e fs' cs),
               snd (perform_cleanup e fs' cs))) \<and>
         (\<forall>x fs'. subprocess_run e fs (py_split (path c)) 30 = (Inl x, fs') \<longrightarrow>
            perform_cleanup e fs (c # cs) =
              (\<lparr>o_name = name c, success = False, message = ''Error: '' @ str x,
                 o_size = ''N/A''\<rparr> # fst (perform_cleanup e fs' cs),
               snd (perform_cleanup e fs' cs))) \<and>
         (subprocess_run e = run_text launch decode \<longrightarrow>
            (\<forall>rc out fs' s.
               launch fs (py_split (path c)) 30 = (Exited rc out, fs') \<and> decode out = Inr s \<longrightarrow>
               perform_cleanup e fs (c # cs) =
                 (\<lparr>o_name = name c, success = True,
                    message = (if rc = 0 then ''Executed successfully''
                               else ''No unavailable simulators found''),
                    o_size = ''N/A''\<rparr> # fst (perform_cleanup e fs' cs),
                  snd (perform_cleanup e fs' cs))) \<and>
            (\<forall>rc out fs' x.
               launch fs (py_split (path c)) 30 = (Exited rc out, fs') \<and> decode out = Inl x \<longrightarrow>
               perform_cleanup e fs (c # cs) =
                 (\<lparr>o_name = name c, success = False, message = ''Error: '' @ str x,
                    o_size = ''N/A''\<rparr> # fst (perform_cleanup e fs' cs),
                  snd (perform_cleanup e fs' cs))) \<and>
            (\<forall>x fs'.
               launch fs (py_split (path c)) 30 = (NotStarted x, fs') \<or>
               launch fs (py_split (path c)) 30 = (TimedOut x, fs') \<longrightarrow>
               perform_cleanup e fs (c # cs) =
                 (\<lparr>o_name = name c, success = False, message = ''Error: '' @ str x,
                    o_size = ''N/A''\<rparr> # fst (perform_cleanup e fs' cs),
                  snd (perform_cleanup e fs' cs))))"
proof -
  let ?argv = "py_split (path c)"
  have ret: "perform_cleanup e fs (c # cs) =
              (\<lparr>o_name = name c, success = True,
                 message = (if rc = 0 then ''Executed successfully''
                            else ''No unavailable simulators found''),
                 o_size = ''N/A''\<rparr> # fst (perform_cleanup e fs' cs),
               snd (perform_cleanup e fs' cs))"
    if "subprocess_run e fs ?argv 30 = (Inr (rc, out), fs')" for rc out fs'
    using that by (simp add: perform_cleanup_command [OF assms] execute_command_def)
  have raised: "perform_cleanup e fs (c # cs) =
              (\<lparr>o_name = name c, success = False, message = ''Error: '' @ str x,
                 o_size = ''N/A''\<rparr> # fst (perform_cleanup e fs' cs),
               snd (perform_cleanup e fs' cs))"
    if "subprocess_run e fs ?argv 30 = (Inl x, fs')" for x fs'
    using that by (simp add: perform_cleanup_command [OF assms] execute_command_def)
  have inside: "(\<forall>rc out fs' s.
               launch fs ?argv 30 = (Exited rc out, fs') \<and> decode out = Inr s \<longrightarrow>
               perform_cleanup e fs (c # cs) =
                 (\<lparr>o_name = name c, success = True,
                    message = (if rc = 0 then ''Executed successfully''
                               else ''No unavailable simulators found''),
                    o_size = ''N/A''\<rparr> # fst (perform_cleanup e fs' cs),
                  snd (perform_cleanup e fs' cs))) \<and>
            (\<forall>rc out fs' x.
               launch fs ?argv 30 = (Exited rc out, fs') \<and> decode out = Inl x \<longrightarrow>
               perform_cleanup e fs (c # cs) =
                 (\<lparr>o_name = name c, success = False, message = ''Error: '' @ str x,
                    o_size = ''N/A''\<rparr> # fst (perform_cleanup e fs' cs),
                  snd (perform_cleanup e fs' cs))) \<and>
            (\<forall>x fs'.
               launch fs ?argv 30 = (NotStarted x, fs') \<or>
               launch fs ?argv 30 = (TimedOut x, fs') \<longrightarrow>
               perform_cleanup e fs (c # cs) =
                 (\<lparr>o_name = name c, success = False, message = ''Error: '' @ str x,
                    o_size = ''N/A''\<rparr> # fst (perform_cleanup e fs' cs),
                  snd (perform_cleanup e fs' cs)))"
    if eq: "subprocess_run e = run_text launch decode"
  proof (intro conjI allI impI)
    fix rc out fs' s
    assume "launch fs ?argv 30 = (Exited rc out, fs') \<and> decode out = Inr s"
    then have "subprocess_run e fs ?argv 30 = (Inr (rc, s), fs')"
      unfolding eq by (simp add: run_text_cases)
    then show "perform_cleanup e fs (c # cs) =
                 (\<lparr>o_name = name c, success = True,
                    message = (if rc = 0 then ''Executed successfully''
                               else ''No unavailable simulators found''),
                    o_size = ''N/A''\<rparr> # fst (perform_cleanup e fs' cs),
                  snd (perform_cleanup e fs' cs))"
      by (rule ret)
  next
    fix rc out fs' x
    assume "launch fs ?argv 30 = (Exited rc out, fs') \<and> decode out = Inl x"
    then have "subprocess_run e fs ?argv 30 = (Inl x, fs')"
      unfolding eq by (simp add: run_text_cases)
    then show "perform_cleanup e fs (c # cs) =
                 (\<lparr>o_name = name c, success = False, message = ''Error: '' @ str x,
                    o_size = ''N/A''\<rparr> # fst (perform_cleanup e fs' cs),
                  snd (perform_cleanup e fs' cs))"
      by (rule raised)
  next
    fix x fs'
    assume "launch fs ?argv 30 = (NotStarted x, fs') \<or> launch fs ?argv 30 = (TimedOut x, fs')"
    then have "subprocess_run e fs ?argv 30 = (Inl x, fs')"
      unfolding eq by (auto simp: run_text_cases)
    then show "perform_cleanup e fs (c # cs) =
                 (\<lparr>o_name = name c, success = False, message = ''Error: '' @ str x,
                    o_size = ''N/A''\<rparr> # fst (perform_cleanup e fs' cs),
                  snd (perform_cleanup e fs' cs))"
      by (rule raised)
  qed
  have A: "\<forall>rc out fs'. subprocess_run e fs ?argv 30 = (Inr (rc, out), fs') \<longrightarrow>
            perform_cleanup e fs (c # cs) =
              (\<lparr>o_name = name c, success = True,
                 message = (if rc = 0 then ''Executed successfully''
                            else ''No unavailable simulators found''),
                 o_size = ''N/A''\<rparr> # fst (perform_cleanup e fs' cs),
               snd (perform_cleanup e fs' cs))"
    by (intro allI impI) (rule ret)
  have B: "\<forall>x fs'. subprocess_run e fs ?argv 30 = (Inl x, fs') \<longrightarrow>
            perform_cleanup e fs (c # cs) =
              (\<lparr>o_name = name c, success = False, message = ''Error: '' @ str x,
                 o_size = ''N/A''\<rparr> # fst (perform_cleanup e fs' cs),
               snd (perform_cleanup e fs' cs))"
    by (intro allI impI) (rule raised)
  show ?thesis
    by (rule conjI [OF A conjI [OF B impI [OF inside]]])
qed

theorem command_outcome_witness:
  "type unavailable_simulators = ''command'' \<and> type garbled_tool = ''command'' \<and>
   type sleeping_tool = ''command'' \<and> type missing_tool = ''command'' \<and>
   subprocess_run ex_env ex_fs (py_split (path unavailable_simulators)) 30 = (Inr (0, []), ex_fs) \<and>
   perform_cleanup ex_env ex_fs [unavailable_simulators] =
     ([\<lparr>o_name = ''Unavailable Simulators'', success = True,
        message = ''Executed successfully'', o_size = ''N/A''\<rparr>], ex_fs) \<and>
   subprocess_run ex_env ex_fs (py_split (path missing_tool)) 30 =
     (Inl (file_not_found ''no-such-tool''), ex_fs) \<and>
   perform_cleanup ex_env ex_fs [missing_tool] =
     ([\<lparr>o_name = ''Missing Tool'', success = False,
        message = ''Error: '' @ str (file_not_found ''no-such-tool''), o_size = ''N/A''\<rparr>], ex_fs) \<and>
   subprocess_run text_env = run_text ex_launch ex_decode \<and>
   ex_launch ex_fs (py_split (path unavailable_simulators)) 30 = (Exited 0 [], ex_fs) \<and>
   ex_decode [] = Inr [] \<and>
   perform_cleanup text_env ex_fs [unavailable_simulators] =
     ([\<lparr>o_name = ''Unavailable Simulators'', success = True,
        message = ''Executed successfully'', o_size = ''N/A''\<rparr>], ex_fs) \<and>
   ex_launch ex_fs (py_split ''false'') 30 = (Exited 1 [], ex_fs) \<and>
   perform_cleanup text_env ex_fs [unavailable_simulators\<lparr>path := ''false''\<rparr>] =
     ([\<lparr>o_name = ''Unavailable Simulators'', success = True,
        message = ''No unavailable simulators found'', o_size = ''N/A''\<rparr>], ex_fs) \<and>
   ex_launch ex_fs (py_split (path garbled_tool)) 30 = (Exited 0 [CHR 0xFF, CHR 0xFE], ex_fs) \<and>
   ex_decode [CHR 0xFF, CHR 0xFE] = Inl undecodable \<and>
   perform_cleanup text_env ex_fs [garbled_tool] =
     ([\<lparr>o_name = ''Garbled Tool'', success = False,
        message = ''Error: '' @ str undecodable, o_size = ''N/A''\<rparr>], ex_fs) \<and>
   ex_launch ex_fs (py_split (path sleeping_tool)) 30 =
     (TimedOut (Exn TimeoutExpired ''Command timed out after 30 seconds''), ex_fs) \<and>
   perform_cleanup text_env ex_fs [sleeping_tool] =
     ([\<lparr>o_name = ''Sleeping Tool'', success = False,
        message = ''Error: Command timed out after 30 seconds'', o_size = ''N/A''\<rparr>], ex_fs) \<and>
   ex_launch ex_fs (py_split (path missing_tool)) 30 =
     (NotStarted (file_not_found ''no-such-tool''), ex_fs) \<and>
   perform_cleanup text_env ex_fs [missing_tool] =
     ([\<lparr>o_name = ''Missing Tool'', success = False,
        message = ''Error: '' @ str (file_not_found ''no-such-tool''), o_size = ''N/A''\<rparr>], ex_fs)"
proof -
  let ?false = "unavailable_simulators\<lparr>path := ''false''\<rparr>"
  have t1: "type unavailable_simulators = ''command''"
    by (simp add: unavailable_simulators_def)
  have t2: "type ?false = ''command''"
    by (simp add: unavailable_simulators_def)
  have t3: "type garbled_tool = ''command''" by (simp add: garbled_tool_def)
  have t4: "type sleeping_tool = ''command''" by (simp add: sleeping_tool_def)
  have t5: "type missing_tool = ''command''" by (simp add: missing_tool_def)
  have n1: "name unavailable_simulators = ''Unavailable Simulators''"
    by (simp add: unavailable_simulators_def)
  have n3: "name garbled_tool = ''Garbled Tool''" by (simp add: garbled_tool_def)
  have n4: "name sleeping_tool = ''Sleeping Tool''" by (simp add: sleeping_tool_def)
  have n5: "name missing_tool = ''Missing Tool''" by (simp add: missing_tool_def)
  have p2: "path ?false = ''false''" by simp
  have r1: "subprocess_run ex_env ex_fs (py_split (path unavailable_simulators)) 30 =
      (Inr (0, []), ex_fs)" by code_simp
  have r5: "subprocess_run ex_env ex_fs (py_split (path missing_tool)) 30 =
      (Inl (file_not_found ''no-such-tool''), ex_fs)" by code_simp
  have eq: "subprocess_run text_env = run_text ex_launch ex_decode"
    by (simp add: text_env_def)
  have l1: "ex_launch ex_fs (py_split (path unavailable_simulators)) 30 = (Exited 0 [], ex_fs)"
    by code_simp
  have l2: "ex_launch ex_fs (py_split ''false'') 30 = (Exited 1 [], ex_fs)" by code_simp
  have l3: "ex_launch ex_fs (py_split (path garbled_tool)) 30 =
      (Exited 0 [CHR 0xFF, CHR 0xFE], ex_fs)" by code_simp
  have l4: "ex_launch ex_fs (py_split (path sleeping_tool)) 30 =
      (TimedOut (Exn TimeoutExpired ''Command timed out after 30 seconds''), ex_fs)"
    by code_simp
  have l5: "ex_launch ex_fs (py_split (path missing_tool)) 30 =
      (NotStarted (file_not_found ''no-such-tool''), ex_fs)" by code_simp
  have d0: "ex_decode [] = Inr []" by (simp add: ex_decode_def)
  have d3: "ex_decode [CHR 0xFF, CHR 0xFE] = Inl undecodable" by (simp add: ex_decode_def)
  have a1: "perform_cleanup ex_env ex_fs [unavailable_simulators] =
     ([\<lparr>o_name = ''Unavailable Simulators'', success = True,
        message = ''Executed successfully'', o_size = ''N/A''\<rparr>], ex_fs)"
    using r1 n1 command_outcome [OF t1, of ex_env ex_fs "[]"]
    by (simp add: perform_cleanup_Nil)
  have a5: "perform_cleanup ex_env ex_fs [missing_tool] =
     ([\<lparr>o_name = ''Missing Tool'', success = False,
        message = ''Error: '' @ str (file_not_found ''no-such-tool''), o_size = ''N/A''\<rparr>], ex_fs)"
    using r5 n5 command_outcome [OF t5, of ex_env ex_fs "[]"]
    by (simp add: perform_cleanup_Nil)
  note in1 = command_outcome [OF t1, of text_env ex_fs "[]" ex_launch ex_decode,
      THEN conjunct2, THEN conjunct2, rule_format, OF eq]
  note in2 = command_outcome [OF t2, of text_env ex_fs "[]" ex_launch ex_decode,
      THEN conjunct2, THEN conjunct2, rule_format, OF eq]
  note in3 = command_outcome [OF t3, of text_env ex_fs "[]" ex_launch ex_decode,
      THEN conjunct2, THEN conjunct2, rule_format, OF eq]
  note in4 = command_outcome [OF t4, of text_env ex_fs "[]" ex_launch ex_decode,
      THEN conjunct2, THEN conjunct2, rule_format, OF eq]
  note in5 = command_outcome [OF t5, of text_env ex_fs "[]" ex_launch ex_decode,
      THEN conjunct2, THEN conjunct2, rule_format, OF eq]
  have b1: "perform_cleanup text_env ex_fs [unavailable_simulators] =
     ([\<lparr>o_name = ''Unavailable Simulators'', success = True,
        message = ''Executed successfully'', o_size = ''N/A''\<rparr>], ex_fs)"
    using in1 l1 d0 n1 by (simp add: perform_cleanup_Nil)
  have b2: "perform_cleanup text_env ex_fs [?false] =
     ([\<lparr>o_name = ''Unavailable Simulators'', success = True,
        message = ''No unavailable simulators found'', o_size = ''N/A''\<rparr>], ex_fs)"
    using in2 l2 d0 n1 p2 by (simp add: perform_cleanup_Nil)
  have b3: "perform_cleanup text_env ex_fs [garbled_tool] =
     ([\<lparr>o_name = ''Garbled Tool'', success = False,
        message = ''Error: '' @ str undecodable, o_size = ''N/A''\<rparr>], ex_fs)"
    using in3 l3 d3 n3 by (simp add: perform_cleanup_Nil)
  have b4: "perform_cleanup text_env ex_fs [sleeping_tool] =
     ([\<lparr>o_name = ''Sleeping Tool'', success = False,
        message = ''Error: Command timed out after 30 seconds'', o_size = ''N/A''\<rparr>], ex_fs)"
    using in4 l4 n4 by (simp add: perform_cleanup_Nil)
  have b5: "perform_cleanup text_env ex_fs [missing_tool] =
     ([\<lparr>o_name = ''Missing Tool'', success = False,
        message = ''Error: '' @ str (file_not_found ''no-such-tool''), o_size = ''N/A''\<rparr>], ex_fs)"
    using in5 l5 n5 by (simp add: perform_cleanup_Nil)
  show ?thesis
    apply (intro conjI)
    apply (rule t1 t3 t4 t5 r1 r5 eq l1 l2 l3 l4 l5 d0 d3 a1 a5 b1 b2 b3 b4 b5)+
    done
qed

text \<open>
  Claim C4. When the expanded path does not exist, \<^verbatim>\<open>clean_directory\<close> returns
  success with the message \<^verbatim>\<open>"Directory not found"\<close> and the size \<^verbatim>\<open>"0B"\<close>,
  leaves the file system as it was, and a second call returns the same.
\<close>

theorem clean_directory_absent:
  assumes "\<not> path_exists e fs (expanduser e p)"
  shows "clean_directory e fs p = ((True, ''Directory not found'', ''0B''), fs) \<and>
         clean_directory e (snd (clean_directory e fs p)) p = clean_directory e fs p"
  using assms by (simp add: clean_directory_def)

theorem clean_directory_absent_witness:
  "\<not> path_exists ex_env ex_fs (expanduser ex_env (path previews)) \<and>
   clean_directory ex_env ex_fs (path previews) = ((True, ''Directory not found'', ''0B''), ex_fs) \<and>
   clean_directory ex_env (snd (clean_directory ex_env ex_fs (path previews))) (path previews) =
     clean_directory ex_env ex_fs (path previews)"
proof -
  have a: "\<not> path_exists ex_env ex_fs (expanduser ex_env (path previews))"
    by code_simp
  show ?thesis
    using a clean_directory_absent [OF a] by simp
qed

text \<open>
  Claim C6. When the path exists and \<^verbatim>\<open>clean_directory\<close> returns success, the
  size it reports is the one \<^verbatim>\<open>get_directory_size\<close> gives on the file system as
  it was before anything was removed.
\<close>

theorem clean_directory_size_snapshot:
  assumes "path_exists e fs (expanduser e p)"
    and "clean_directory e fs p = ((True, msg, sz), fs')"
  shows "sz = fst (get_directory_size e fs p)"
  using assms by (auto simp: clean_directory_def Let_def split: prod.splits option.splits)

theorem clean_directory_size_snapshot_witness:
  "path_exists ex_env ex_fs (expanduser ex_env (path derived_data)) \<and>
   fst (clean_directory ex_env ex_fs (path derived_data)) =
     (True, ''Cleaned successfully'', ''1,2G'') \<and>
   fst (get_directory_size ex_env ex_fs (path derived_data)) = ''1,2G'' \<and>
   fst (get_directory_size ex_env (snd (clean_directory ex_env ex_fs (path derived_data)))
          (path derived_data)) = ''0B''"
proof -
  have a: "path_exists ex_env ex_fs (expanduser ex_env (path derived_data))"
    by code_simp
  have b: "fst (clean_directory ex_env ex_fs (path derived_data)) =
     (True, ''Cleaned successfully'', ''1,2G'')"
    by code_simp
  then have b': "clean_directory ex_env ex_fs (path derived_data) =
     ((True, ''Cleaned successfully'', ''1,2G''),
      snd (clean_directory ex_env ex_fs (path derived_data)))"
    by (metis prod.collapse)
  have c: "fst (get_directory_size ex_env (snd (clean_directory ex_env ex_fs (path derived_data)))
          (path derived_data)) = ''0B''"
    by code_simp
  show ?thesis
    using a b c clean_directory_size_snapshot [OF a b'] by simp
qed

text \<open>
  Claim C7. When the path is an existing directory of a well-formed file system and some
  immediate child cannot be removed, removing the children raises some exception \<open>x\<close>
  (the first one met in listing order) and \<^verbatim>\<open>clean_directory\<close> returns
  \<open>success = False\<close>, the message \<^verbatim>\<open>"Error: "\<close> followed by the description of
  \<open>x\<close>, and the size \<^verbatim>\<open>"0B"\<close>; the exception does not leave the function.
\<close>

theorem clean_directory_child_failure:
  assumes "wf_node fs"
    and "resolve e (expanduser e p) = Some loc"
    and "lookup loc fs = Some (Dir f cs)"
    and "(n, c) \<in> set cs"
    and "\<not> removable c"
  shows "\<exists>x. fst (rmtree_entries cs) = Some x \<and>
             fst (clean_directory e fs p) = (False, ''Error: '' @ str x, ''0B'')"
proof -
  from assms(4) have "c \<in> snd ` set cs" by force
  from rmtree_entries_unremovable [OF this assms(5)]
  obtain x where "fst (rmtree_entries cs) = Some x" by auto
  then show ?thesis
    by (simp add: clean_directory_dir [OF assms(1-3)])
qed

theorem clean_directory_child_failure_witness:
  "wf_node ex_fs \<and>
   resolve ex_env (expanduser ex_env (path device_support)) =
     Some [''Users'', ''dev'', ''Library'', ''Developer'', ''Xcode'', ''iOS DeviceSupport''] \<and>
   lookup [''Users'', ''dev'', ''Library'', ''Developer'', ''Xcode'', ''iOS DeviceSupport''] ex_fs =
     Some (Dir None ex_support) \<and>
   (''17.0'', Dir None [(''dyld'', File (Some denied)), (''Symbols'', File None)]) \<in> set ex_support \<and>
   \<not> removable (Dir None [(''dyld'', File (Some denied)), (''Symbols'', File None)]) \<and>
   fst (clean_directory ex_env ex_fs (path device_support)) =
     (False, ''Error: [Errno 13] Permission denied'', ''0B'')"
proof -
  let ?loc = "[''Users'', ''dev'', ''Library'', ''Developer'', ''Xcode'', ''iOS DeviceSupport'']"
  let ?c = "Dir None [(''dyld'', File (Some denied)), (''Symbols'', File None)]"
  have a: "wf_node ex_fs" by code_simp
  have b: "resolve ex_env (expanduser ex_env (path device_support)) = Some ?loc" by code_simp
  have c: "lookup ?loc ex_fs = Some (Dir None ex_support)" by code_simp
  have d: "(''17.0'', ?c) \<in> set ex_support" by (simp add: ex_support_def)
  have e: "\<not> removable ?c" by (simp add: removable_def)
  have f: "fst (rmtree_entries ex_support) = Some denied" by (simp add: ex_support_def)
  have g: "str denied = ''[Errno 13] Permission denied''" by (simp add: denied_def)
  from clean_directory_child_failure [OF a b c d e] f g
  have "fst (clean_directory ex_env ex_fs (path device_support)) =
     (False, ''Error: [Errno 13] Permission denied'', ''0B'')" by auto
  with a b c d e show ?thesis by blast
qed

text \<open>
  Claim C5. When the path is an existing directory of a well-formed file system:
  if every immediate child can be removed then \<^verbatim>\<open>clean_directory\<close> returns success;
  and whenever it returns success, the directory is still there, with the same
  attributes and no children, and every location that is not the directory or below it
  shows the same entry (kind, attributes and names of children) as before.
\<close>

theorem clean_directory_empties:
  assumes "wf_node fs"
    and "resolve e (expanduser e p) = Some loc"
    and "lookup loc fs = Some (Dir f cs)"
  shows "((\<forall>c \<in> snd ` set cs. removable c) \<longrightarrow> fst (fst (clean_directory e fs p))) \<and>
         (fst (fst (clean_directory e fs p)) \<longrightarrow>
            lookup loc (snd (clean_directory e fs p)) = Some (Dir f []) \<and>
            (\<forall>q. \<not> prefix loc q \<longrightarrow>
                 stat (snd (clean_directory e fs p)) q = stat fs q))"
proof -
  note cd = clean_directory_dir [OF assms]
  have 1: "fst (fst (clean_directory e fs p))" if "\<forall>c \<in> snd ` set cs. removable c"
    using rmtree_entries_all_removable [OF that] by (simp add: cd)
  have 2: "lookup loc (snd (clean_directory e fs p)) = Some (Dir f []) \<and>
           (\<forall>q. \<not> prefix loc q \<longrightarrow> stat (snd (clean_directory e fs p)) q = stat fs q)"
    if ok: "fst (fst (clean_directory e fs p))"
  proof -
    from ok have "fst (rmtree_entries cs) = None"
      by (cases "fst (rmtree_entries cs)") (simp_all add: cd)
    then have "rmtree_entries cs = (None, [])"
      using rmtree_ok_gone(2) [of cs] by (cases "rmtree_entries cs") auto
    then have fs': "snd (clean_directory e fs p) = put loc (Some (Dir f [])) fs"
      by (simp add: cd)
    show ?thesis
      unfolding fs' using assms(3) by (simp add: lookup_put_same stat_put_frame)
  qed
  from 1 2 show ?thesis by blast
qed

theorem clean_directory_empties_witness:
  "wf_node ex_fs \<and>
   resolve ex_env (expanduser ex_env (path derived_data)) =
     Some [''Users'', ''dev'', ''Library'', ''Developer'', ''Xcode'', ''DerivedData''] \<and>
   lookup [''Users'', ''dev'', ''Library'', ''Developer'', ''Xcode'', ''DerivedData''] ex_fs =
     Some (Dir None ex_derived) \<and>
   list_all removable (map snd ex_derived) \<and>
   fst (fst (clean_directory ex_env ex_fs (path derived_data))) \<and>
   lookup [''Users'', ''dev'', ''Library'', ''Developer'', ''Xcode'', ''DerivedData'']
     (snd (clean_directory ex_env ex_fs (path derived_data))) = Some (Dir None []) \<and>
   \<not> prefix [''Users'', ''dev'', ''Library'', ''Developer'', ''Xcode'', ''DerivedData'']
       [''Users'', ''dev'', ''Library'', ''Developer'', ''Xcode'', ''iOS DeviceSupport''] \<and>
   stat (snd (clean_directory ex_env ex_fs (path derived_data)))
     [''Users'', ''dev'', ''Library'', ''Developer'', ''Xcode'', ''iOS DeviceSupport''] =
   stat ex_fs [''Users'', ''dev'', ''Library'', ''Developer'', ''Xcode'', ''iOS DeviceSupport'']"
proof -
  let ?loc = "[''Users'', ''dev'', ''Library'', ''Developer'', ''Xcode'', ''DerivedData'']"
  let ?q = "[''Users'', ''dev'', ''Library'', ''Developer'', ''Xcode'', ''iOS DeviceSupport'']"
  have a: "wf_node ex_fs" by code_simp
  have b: "resolve ex_env (expanduser ex_env (path derived_data)) = Some ?loc" by code_simp
  have c: "lookup ?loc ex_fs = Some (Dir None ex_derived)" by code_simp
  have d: "\<forall>c \<in> snd ` set ex_derived. removable c"
    by (simp add: ex_derived_def removable_def)
  have e: "\<not> prefix ?loc ?q" by simp
  have d': "list_all removable (map snd ex_derived)"
    using d by (simp add: list_all_iff)
  show ?thesis
    using a b c d d' e clean_directory_empties [OF a b c] by blast
qed




text \<open>
  Claim C9. A target whose type is neither \<^verbatim>\<open>directory\<close> nor \<^verbatim>\<open>command\<close> is
  passed over: the run is the same as without it, no outcome is appended for it, and the
  list of outcomes is shorter than the list of targets.
\<close>

theorem unknown_kind_no_outcome:
  assumes "type c \<noteq> ''directory''" and "type c \<noteq> ''command''"
  shows "perform_cleanup e fs (xs @ c # ys) = perform_cleanup e fs (xs @ ys) \<and>
         length (fst (perform_cleanup e fs (xs @ c # ys))) < length (xs @ c # ys)"
proof -
  from assms have c: "\<not> known_kind c" by (simp add: known_kind_def)
  have same: "perform_cleanup e fs (xs @ c # ys) = perform_cleanup e fs (xs @ ys)"
    by (simp add: perform_cleanup_append [of e fs xs] perform_cleanup_other [OF c])
  have "length (fst (perform_cleanup e fs (xs @ c # ys))) =
          length (filter known_kind xs) + length (filter known_kind ys)"
    using c by (simp add: perform_cleanup_length)
  also have "\<dots> \<le> length xs + length ys"
    by (simp add: add_mono)
  finally have "length (fst (perform_cleanup e fs (xs @ c # ys))) < length (xs @ c # ys)"
    by simp
  with same show ?thesis by blast
qed

theorem unknown_kind_no_outcome_witness:
  "type odd_target \<noteq> ''directory'' \<and> type odd_target \<noteq> ''command'' \<and>
   perform_cleanup ex_env ex_fs ([unavailable_simulators] @ odd_target # [previews]) =
     perform_cleanup ex_env ex_fs ([unavailable_simulators] @ [previews]) \<and>
   map o_name (fst (perform_cleanup ex_env ex_fs ([unavailable_simulators] @ odd_target # [previews]))) =
     [''Unavailable Simulators'', ''Xcode Previews''] \<and>
   length (fst (perform_cleanup ex_env ex_fs ([unavailable_simulators] @ odd_target # [previews]))) <
     length ([unavailable_simulators] @ odd_target # [previews])"
proof -
  have a: "type odd_target \<noteq> ''directory''" by (simp add: odd_target_def)
  have b: "type odd_target \<noteq> ''command''" by (simp add: odd_target_def)
  have c: "map o_name (fst (perform_cleanup ex_env ex_fs ([unavailable_simulators] @ [previews]))) =
     [''Unavailable Simulators'', ''Xcode Previews'']"
    by code_simp
  note d = unknown_kind_no_outcome [OF a b, of ex_env ex_fs "[unavailable_simulators]" "[previews]"]
  from c d have e: "map o_name (fst (perform_cleanup ex_env ex_fs
      ([unavailable_simulators] @ odd_target # [previews]))) =
     [''Unavailable Simulators'', ''Xcode Previews'']"
    by (simp only:)
  from a b d e show ?thesis by blast
qed




end
